theory Spec2Isabelle
  imports Main "HOL-Library.Word"
begin

section \<open>Shared notions\<close>

text \<open>
  A Go pointer is \<open>nil\<close> or the address of an allocated object. Objects of one struct type
  live in a store that is a list; the address of an object is its index, and allocation
  appends to the list.
\<close>

datatype ptr = Null | Addr nat

text \<open>A run-time panic of the Go program is a value of the model.\<close>

datatype panic = NilDereference | SliceBoundsOutOfRange

section \<open>Factory: payment processors\<close>

text \<open>
  The three concrete product types. The interface value \<open>PaymentProcessor\<close> holds one of
  them; the claims on the factory depend on the fields and on the dynamic type only, so
  the product is kept as a value.
\<close>

datatype PaymentProcessor =
    CreditCardProcessor (cardNumber: string) (cvv: string)
  | PayPalProcessor (email: string)
  | BankTransferProcessor (accountNumber: string) (routingNumber: string)

text \<open>
  What \<open>Process\<close> prints. The amount is a \<open>float64\<close> formatted with \<open>%.2f\<close>; it is carried
  uninterpreted in the type \<open>'a\<close>.
\<close>

datatype 'a payment_line =
    ViaCreditCard 'a string
  | ViaPayPal 'a string
  | ViaBankTransfer 'a string

text \<open>
  \<open>c.cardNumber[len(c.cardNumber)-4:]\<close>: the low bound \<open>len - 4\<close> is negative for a string
  of fewer than four bytes, and Go panics on a negative slice bound.
\<close>

definition last_four :: "string \<Rightarrow> panic + string" where
  "last_four s =
     (if length s < 4 then Inl SliceBoundsOutOfRange
      else Inr (drop (length s - 4) s))"

text \<open>
  A Go string is a sequence of bytes, and \<open>len\<close> counts bytes. Its characters are the
  code points that the bytes encode in UTF-8, one to four bytes each; in well-formed UTF-8
  they are as many as the bytes that are not continuation bytes (\<open>0x80\<close> to \<open>0xBF\<close>), which
  is what \<open>utf8.RuneCountInString\<close> returns. The source never counts characters; the count
  is here to compare a bound in characters with the bound in bytes that the slice has.
\<close>

definition is_continuation_byte :: "char \<Rightarrow> bool" where
  "is_continuation_byte c \<longleftrightarrow> 128 \<le> (of_char c :: nat) \<and> (of_char c :: nat) < 192"

definition character_count :: "string \<Rightarrow> nat" where
  "character_count s = length (filter (\<lambda>c. \<not> is_continuation_byte c) s)"

text \<open>\<open>Process\<close> returns the \<open>nil\<close> error after printing: \<open>Inr\<close> carries the printed line.\<close>

fun Process :: "PaymentProcessor \<Rightarrow> 'a \<Rightarrow> panic + 'a payment_line" where
  "Process (CreditCardProcessor cn cv) amount =
     (case last_four cn of
        Inl p \<Rightarrow> Inl p
      | Inr tl4 \<Rightarrow> Inr (ViaCreditCard amount tl4))"
| "Process (PayPalProcessor em) amount = Inr (ViaPayPal amount em)"
| "Process (BankTransferProcessor an rn) amount = Inr (ViaBankTransfer amount an)"

fun GetName :: "PaymentProcessor \<Rightarrow> string" where
  "GetName (CreditCardProcessor cn cv) = ''Credit Card''"
| "GetName (PayPalProcessor em) = ''PayPal''"
| "GetName (BankTransferProcessor an rn) = ''Bank Transfer''"

type_synonym PaymentType = string

definition CreditCard :: PaymentType where
  "CreditCard = ''credit''"

definition PayPal :: PaymentType where
  "PayPal = ''paypal''"

definition BankTransfer :: PaymentType where
  "BankTransfer = ''bank''"

text \<open>
  A \<open>map[string]string\<close> argument: \<open>None\<close> is the \<open>nil\<close> map. Indexing a Go map with an
  absent key, and indexing the \<open>nil\<close> map, both give the zero value, the empty string.
\<close>

type_synonym details = "(string \<rightharpoonup> string) option"

definition index_details :: "details \<Rightarrow> string \<Rightarrow> string" where
  "index_details d k =
     (case d of
        None \<Rightarrow> []
      | Some m \<Rightarrow> (case m k of None \<Rightarrow> [] | Some v \<Rightarrow> v))"

text \<open>
  The factory returns \<open>(processor, nil)\<close> or \<open>(nil, error)\<close>: \<open>Inr\<close> is the processor,
  \<open>Inl\<close> the message of the error built by \<open>fmt.Errorf\<close>.
\<close>

definition CreatePaymentProcessor :: "PaymentType \<Rightarrow> details \<Rightarrow> string + PaymentProcessor" where
  "CreatePaymentProcessor paymentType d =
     (if paymentType = CreditCard then
        Inr (CreditCardProcessor (index_details d ''cardNumber'') (index_details d ''cvv''))
      else if paymentType = PayPal then
        Inr (PayPalProcessor (index_details d ''email''))
      else if paymentType = BankTransfer then
        Inr (BankTransferProcessor (index_details d ''accountNumber'')
               (index_details d ''routingNumber''))
      else Inl (''unknown payment type: '' @ paymentType))"

section \<open>Builder: server configuration\<close>

text \<open>
  \<open>time.Duration\<close> is a count of nanoseconds (an \<open>int64\<close>), and \<open>time.Second\<close> is
  \<open>1000000000\<close> of them. The builder stores durations and the integers \<open>Port\<close> and
  \<open>MaxConnections\<close> without computing on them, so they are mathematical integers here.
\<close>

type_synonym Duration = int

definition Second :: Duration where
  "Second = 1000000000"

record ServerConfig =
  Host :: string
  Port :: int
  SSL :: bool
  Timeout :: Duration
  MaxConnections :: int
  ReadTimeout :: Duration
  WriteTimeout :: Duration
  DatabaseURL :: string
  CacheEnabled :: bool
  LogLevel :: string

record ServerConfigBuilder =
  config :: ServerConfig

record ValidationError =
  Field' :: string
  Message :: string

definition ValidationError_Error :: "ValidationError \<Rightarrow> string" where
  "ValidationError_Error e = Field' e @ '': '' @ Message e"

text \<open>
  The objects the builder package allocates: the builders, and the configurations that
  \<open>Build\<close> returns pointers to. A \<open>*ServerConfigBuilder\<close> is an address in \<open>builders\<close>, a
  \<open>*ServerConfig\<close> an address in \<open>configs\<close>.
\<close>

record bheap =
  builders :: "ServerConfigBuilder list"
  configs :: "ServerConfig list"

text \<open>
  Reading through a pointer panics on \<open>nil\<close>. A Go pointer is never dangling; an address
  outside the store is treated like \<open>nil\<close>.
\<close>

definition load :: "'a list \<Rightarrow> ptr \<Rightarrow> panic + 'a" where
  "load st p =
     (case p of
        Null \<Rightarrow> Inl NilDereference
      | Addr a \<Rightarrow> (if a < length st then Inr (st ! a) else Inl NilDereference))"

definition store :: "'a list \<Rightarrow> ptr \<Rightarrow> 'a \<Rightarrow> 'a list" where
  "store st p v = (case p of Null \<Rightarrow> st | Addr a \<Rightarrow> st[a := v])"

definition NewServerConfigBuilder :: "bheap \<Rightarrow> ptr \<times> bheap" where
  "NewServerConfigBuilder h =
     (Addr (length (builders h)),
      h\<lparr>builders := builders h @
          [\<lparr>config = \<lparr>Host = [], Port = 8080, SSL = False, Timeout = 30 * Second,
                      MaxConnections = 100, ReadTimeout = 10 * Second,
                      WriteTimeout = 10 * Second, DatabaseURL = [],
                      CacheEnabled = False, LogLevel = ''info''\<rparr>\<rparr>]\<rparr>)"

text \<open>
  The body shared by the ten setters, \<open>b.config.F = v; return b\<close>: the assignment \<open>upd\<close> is
  applied to the configuration staged in the builder at \<open>b\<close>, and \<open>b\<close> is returned.
\<close>

definition assign_config ::
  "ptr \<Rightarrow> (ServerConfig \<Rightarrow> ServerConfig) \<Rightarrow> bheap \<Rightarrow> panic + (ptr \<times> bheap)" where
  "assign_config b upd h =
     (case load (builders h) b of
        Inl p \<Rightarrow> Inl p
      | Inr bs \<Rightarrow> Inr (b, h\<lparr>builders := store (builders h) b (bs\<lparr>config := upd (config bs)\<rparr>)\<rparr>))"

definition ServerConfigBuilder_Host :: "ptr \<Rightarrow> string \<Rightarrow> bheap \<Rightarrow> panic + (ptr \<times> bheap)" where
  "ServerConfigBuilder_Host b host h = assign_config b (\<lambda>c. c\<lparr>Host := host\<rparr>) h"

definition ServerConfigBuilder_Port :: "ptr \<Rightarrow> int \<Rightarrow> bheap \<Rightarrow> panic + (ptr \<times> bheap)" where
  "ServerConfigBuilder_Port b port h = assign_config b (\<lambda>c. c\<lparr>Port := port\<rparr>) h"

definition ServerConfigBuilder_EnableSSL :: "ptr \<Rightarrow> bool \<Rightarrow> bheap \<Rightarrow> panic + (ptr \<times> bheap)" where
  "ServerConfigBuilder_EnableSSL b enable h = assign_config b (\<lambda>c. c\<lparr>SSL := enable\<rparr>) h"

definition ServerConfigBuilder_Timeout :: "ptr \<Rightarrow> Duration \<Rightarrow> bheap \<Rightarrow> panic + (ptr \<times> bheap)" where
  "ServerConfigBuilder_Timeout b timeout h = assign_config b (\<lambda>c. c\<lparr>Timeout := timeout\<rparr>) h"

definition ServerConfigBuilder_MaxConnections :: "ptr \<Rightarrow> int \<Rightarrow> bheap \<Rightarrow> panic + (ptr \<times> bheap)" where
  "ServerConfigBuilder_MaxConnections b mx h = assign_config b (\<lambda>c. c\<lparr>MaxConnections := mx\<rparr>) h"

definition ServerConfigBuilder_ReadTimeout :: "ptr \<Rightarrow> Duration \<Rightarrow> bheap \<Rightarrow> panic + (ptr \<times> bheap)" where
  "ServerConfigBuilder_ReadTimeout b timeout h = assign_config b (\<lambda>c. c\<lparr>ReadTimeout := timeout\<rparr>) h"

definition ServerConfigBuilder_WriteTimeout :: "ptr \<Rightarrow> Duration \<Rightarrow> bheap \<Rightarrow> panic + (ptr \<times> bheap)" where
  "ServerConfigBuilder_WriteTimeout b timeout h = assign_config b (\<lambda>c. c\<lparr>WriteTimeout := timeout\<rparr>) h"

definition ServerConfigBuilder_DatabaseURL :: "ptr \<Rightarrow> string \<Rightarrow> bheap \<Rightarrow> panic + (ptr \<times> bheap)" where
  "ServerConfigBuilder_DatabaseURL b url h = assign_config b (\<lambda>c. c\<lparr>DatabaseURL := url\<rparr>) h"

definition ServerConfigBuilder_EnableCache :: "ptr \<Rightarrow> bool \<Rightarrow> bheap \<Rightarrow> panic + (ptr \<times> bheap)" where
  "ServerConfigBuilder_EnableCache b enable h = assign_config b (\<lambda>c. c\<lparr>CacheEnabled := enable\<rparr>) h"

definition ServerConfigBuilder_LogLevel :: "ptr \<Rightarrow> string \<Rightarrow> bheap \<Rightarrow> panic + (ptr \<times> bheap)" where
  "ServerConfigBuilder_LogLevel b level h = assign_config b (\<lambda>c. c\<lparr>LogLevel := level\<rparr>) h"

text \<open>
  The configuration staged in the builder at address \<open>a\<close>, and the store in which that
  staged configuration, and nothing else, is replaced by \<open>c\<close>.
\<close>

definition staged :: "bheap \<Rightarrow> nat \<Rightarrow> ServerConfig" where
  "staged h a = config (builders h ! a)"

definition restage :: "bheap \<Rightarrow> nat \<Rightarrow> ServerConfig \<Rightarrow> bheap" where
  "restage h a c = h\<lparr>builders := (builders h)[a := (builders h ! a)\<lparr>config := c\<rparr>]\<rparr>"

text \<open>
  The \<open>map[string]bool\<close> of accepted log levels; indexing it with an absent key gives
  \<open>false\<close>.
\<close>

definition validLogLevels :: "string \<rightharpoonup> bool" where
  "validLogLevels =
     [''debug'' \<mapsto> True, ''info'' \<mapsto> True, ''warn'' \<mapsto> True, ''error'' \<mapsto> True]"

definition index_bool :: "(string \<rightharpoonup> bool) \<Rightarrow> string \<Rightarrow> bool" where
  "index_bool m k = (case m k of None \<Rightarrow> False | Some v \<Rightarrow> v)"

text \<open>
  \<open>Build\<close> returns \<open>(nil, err)\<close>, here \<open>Inl err\<close>, or \<open>(&config, nil)\<close>, here \<open>Inr\<close> of the
  address of a newly allocated copy of the staged configuration. The error is the
  \<open>ValidationError\<close> that the returned pointer refers to.
\<close>

definition ServerConfigBuilder_Build ::
  "ptr \<Rightarrow> bheap \<Rightarrow> panic + ((ValidationError + ptr) \<times> bheap)" where
  "ServerConfigBuilder_Build b h =
     (case load (builders h) b of
        Inl p \<Rightarrow> Inl p
      | Inr bs \<Rightarrow>
          if Host (config bs) = [] then
            Inr (Inl \<lparr>Field' = ''Host'', Message = ''host is required''\<rparr>, h)
          else if Port (config bs) \<le> 0 \<or> Port (config bs) > 65535 then
            Inr (Inl \<lparr>Field' = ''Port'', Message = ''port must be between 1 and 65535''\<rparr>, h)
          else if \<not> index_bool validLogLevels (LogLevel (config bs)) then
            Inr (Inl \<lparr>Field' = ''LogLevel'',
                      Message = ''log level must be one of: debug, info, warn, error''\<rparr>, h)
          else
            Inr (Inr (Addr (length (configs h))), h\<lparr>configs := configs h @ [config bs]\<rparr>))"

text \<open>
  Chaining: the call \<open>x.M(...)\<close> on the result \<open>x\<close> of the previous call. A panic ends the
  chain.
\<close>

definition and_then ::
  "panic + ('a \<times> bheap) \<Rightarrow> ('a \<Rightarrow> bheap \<Rightarrow> panic + ('b \<times> bheap)) \<Rightarrow> panic + ('b \<times> bheap)" where
  "and_then r f = (case r of Inl p \<Rightarrow> Inl p | Inr (x, h) \<Rightarrow> f x h)"

text \<open>
  The first chain of the demonstration program:
  \<open>NewServerConfigBuilder().Host("localhost").Port(8080).Build()\<close>.
\<close>

definition minimalConfig :: "bheap \<Rightarrow> panic + ((ValidationError + ptr) \<times> bheap)" where
  "minimalConfig h =
     and_then
       (and_then
          (and_then (Inr (NewServerConfigBuilder h)) (\<lambda>b. ServerConfigBuilder_Host b ''localhost''))
          (\<lambda>b. ServerConfigBuilder_Port b 8080))
       ServerConfigBuilder_Build"

text \<open>
  The builders of the validation steps of the demonstration program, just before their
  \<open>Build()\<close>: at address 0 \<open>NewServerConfigBuilder().Port(8080)\<close>, at 1
  \<open>NewServerConfigBuilder().Host("localhost").Port(99999)\<close>, at 2
  \<open>NewServerConfigBuilder().Host("localhost").Port(8080).LogLevel("invalid")\<close>, and at 3
  the builder of the first chain, \<open>NewServerConfigBuilder().Host("localhost").Port(8080)\<close>.
\<close>

definition default_config :: ServerConfig where
  "default_config =
     \<lparr>Host = [], Port = 8080, SSL = False, Timeout = 30 * Second,
      MaxConnections = 100, ReadTimeout = 10 * Second,
      WriteTimeout = 10 * Second, DatabaseURL = [],
      CacheEnabled = False, LogLevel = ''info''\<rparr>"

definition validation_demo :: bheap where
  "validation_demo =
     \<lparr>builders =
        [\<lparr>config = default_config\<lparr>Port := 8080\<rparr>\<rparr>,
         \<lparr>config = default_config\<lparr>Host := ''localhost'', Port := 99999\<rparr>\<rparr>,
         \<lparr>config = default_config\<lparr>Host := ''localhost'', Port := 8080, LogLevel := ''invalid''\<rparr>\<rparr>,
         \<lparr>config = default_config\<lparr>Host := ''localhost'', Port := 8080\<rparr>\<rparr>],
      configs = []\<rparr>"

text \<open>
  The store after \<open>NewServerConfigBuilder().Port(99999)\<close> in an empty store: the host
  is still the empty string, and the port is out of range.
\<close>

definition no_host_port_99999 :: bheap where
  "no_host_port_99999 =
     \<lparr>builders = [\<lparr>config = default_config\<lparr>Port := 99999\<rparr>\<rparr>], configs = []\<rparr>"

text \<open>
  A call of one of the ten setters with its argument, and a sequence of such calls on one
  builder pointer, each made on the pointer the previous one returned.
\<close>

datatype setter_call =
    CallHost string
  | CallPort int
  | CallEnableSSL bool
  | CallTimeout Duration
  | CallMaxConnections int
  | CallReadTimeout Duration
  | CallWriteTimeout Duration
  | CallDatabaseURL string
  | CallEnableCache bool
  | CallLogLevel string

fun call_setter :: "setter_call \<Rightarrow> ptr \<Rightarrow> bheap \<Rightarrow> panic + (ptr \<times> bheap)" where
  "call_setter (CallHost v) b h = ServerConfigBuilder_Host b v h"
| "call_setter (CallPort v) b h = ServerConfigBuilder_Port b v h"
| "call_setter (CallEnableSSL v) b h = ServerConfigBuilder_EnableSSL b v h"
| "call_setter (CallTimeout v) b h = ServerConfigBuilder_Timeout b v h"
| "call_setter (CallMaxConnections v) b h = ServerConfigBuilder_MaxConnections b v h"
| "call_setter (CallReadTimeout v) b h = ServerConfigBuilder_ReadTimeout b v h"
| "call_setter (CallWriteTimeout v) b h = ServerConfigBuilder_WriteTimeout b v h"
| "call_setter (CallDatabaseURL v) b h = ServerConfigBuilder_DatabaseURL b v h"
| "call_setter (CallEnableCache v) b h = ServerConfigBuilder_EnableCache b v h"
| "call_setter (CallLogLevel v) b h = ServerConfigBuilder_LogLevel b v h"

fun call_setters :: "setter_call list \<Rightarrow> ptr \<Rightarrow> bheap \<Rightarrow> panic + (ptr \<times> bheap)" where
  "call_setters [] b h = Inr (b, h)"
| "call_setters (c # cs) b h = and_then (call_setter c b h) (call_setters cs)"

section \<open>Singleton: database connection\<close>

text \<open>
  Go's \<open>int\<close> is a 64-bit word on the 64-bit platforms; \<open>connID++\<close> wraps around.
\<close>

record DatabaseConnection =
  connectionString :: string
  isConnected :: bool
  connectionID :: "64 word"

text \<open>The lines the package prints on standard output, with the values they format.\<close>

datatype line =
    InstanceCreated "64 word"
  | Connected "64 word"
  | AlreadyConnected "64 word"
  | Disconnected "64 word"
  | NotConnected
  | ExecutingQuery string "64 word"

text \<open>
  The state of the package: the variables \<open>instance\<close>, \<open>once\<close> and \<open>connID\<close>, the
  connections allocated so far, and what has been printed. Of the \<open>sync.Once\<close> the flag
  \<open>done\<close> is kept here; its mutex is free whenever no call of \<open>Do\<close> is running, and appears
  in the interleaving model only.
\<close>

record sstate =
  instance_ptr :: ptr
  once_done :: bool
  connID :: "64 word"
  conns :: "DatabaseConnection list"
  stdout :: "line list"

text \<open>The state at program start: every package variable has its zero value.\<close>

definition program_start :: sstate where
  "program_start =
     \<lparr>instance_ptr = Null, once_done = False, connID = 0, conns = [], stdout = []\<rparr>"

text \<open>
  The three statements of the function literal that \<open>GetInstance\<close> passes to \<open>once.Do\<close>:
  \<open>connID++\<close>, the assignment of a new connection to \<open>instance\<close>, and the \<open>Printf\<close>.
\<close>

definition func1_increment :: "sstate \<Rightarrow> sstate" where
  "func1_increment g = g\<lparr>connID := connID g + 1\<rparr>"

definition func1_assign :: "sstate \<Rightarrow> sstate" where
  "func1_assign g =
     g\<lparr>conns := conns g @
          [\<lparr>connectionString = ''postgresql://localhost:5432/mydb'',
            isConnected = False,
            connectionID = connID g\<rparr>],
       instance_ptr := Addr (length (conns g))\<rparr>"

definition func1_print :: "sstate \<Rightarrow> sstate" where
  "func1_print g = g\<lparr>stdout := stdout g @ [InstanceCreated (connID g)]\<rparr>"

text \<open>
  A function passed to \<open>once.Do\<close> returns (\<open>Inr ()\<close>) or panics (\<open>Inl\<close>), and leaves a
  state in both cases. The function literal of \<open>GetInstance\<close> has no statement that can
  panic.
\<close>

type_synonym once_func = "sstate \<Rightarrow> (panic + unit) \<times> sstate"

definition GetInstance_func1 :: once_func where
  "GetInstance_func1 g = (Inr (), func1_print (func1_assign (func1_increment g)))"

text \<open>
  \<open>sync.Once.Do\<close>, run without interference: when \<open>done\<close> is set it returns at once;
  otherwise it calls \<open>f\<close>, and the store to \<open>done\<close> is deferred, so that it happens when \<open>f\<close>
  returns and when \<open>f\<close> panics, and the panic goes on to the caller of \<open>Do\<close>.
\<close>

definition once_Do :: "once_func \<Rightarrow> sstate \<Rightarrow> (panic + unit) \<times> sstate" where
  "once_Do f g =
     (if once_done g then (Inr (), g)
      else (case f g of (r, g') \<Rightarrow> (r, g'\<lparr>once_done := True\<rparr>)))"

text \<open>
  The body of \<open>GetInstance\<close> over the function given to \<open>once.Do\<close>: after \<open>Do\<close> returns,
  the value of \<open>instance\<close> is returned. \<open>GetInstance\<close> itself passes its function literal.
\<close>

definition GetInstance_with :: "once_func \<Rightarrow> sstate \<Rightarrow> (panic + ptr) \<times> sstate" where
  "GetInstance_with f g =
     (case once_Do f g of
        (Inl p, g') \<Rightarrow> (Inl p, g')
      | (Inr u, g') \<Rightarrow> (Inr (instance_ptr g'), g'))"

definition GetInstance :: "sstate \<Rightarrow> (panic + ptr) \<times> sstate" where
  "GetInstance g = GetInstance_with GetInstance_func1 g"

definition Connect :: "ptr \<Rightarrow> sstate \<Rightarrow> (panic + unit) \<times> sstate" where
  "Connect db g =
     (case load (conns g) db of
        Inl p \<Rightarrow> (Inl p, g)
      | Inr c \<Rightarrow>
          if \<not> isConnected c then
            (Inr (), g\<lparr>conns := store (conns g) db (c\<lparr>isConnected := True\<rparr>),
                       stdout := stdout g @ [Connected (connectionID c)]\<rparr>)
          else (Inr (), g\<lparr>stdout := stdout g @ [AlreadyConnected (connectionID c)]\<rparr>))"

definition Disconnect :: "ptr \<Rightarrow> sstate \<Rightarrow> (panic + unit) \<times> sstate" where
  "Disconnect db g =
     (case load (conns g) db of
        Inl p \<Rightarrow> (Inl p, g)
      | Inr c \<Rightarrow>
          if isConnected c then
            (Inr (), g\<lparr>conns := store (conns g) db (c\<lparr>isConnected := False\<rparr>),
                       stdout := stdout g @ [Disconnected (connectionID c)]\<rparr>)
          else (Inr (), g))"

definition Query :: "ptr \<Rightarrow> string \<Rightarrow> sstate \<Rightarrow> (panic + unit) \<times> sstate" where
  "Query db sql g =
     (case load (conns g) db of
        Inl p \<Rightarrow> (Inl p, g)
      | Inr c \<Rightarrow>
          if \<not> isConnected c then (Inr (), g\<lparr>stdout := stdout g @ [NotConnected]\<rparr>)
          else (Inr (), g\<lparr>stdout := stdout g @ [ExecutingQuery sql (connectionID c)]\<rparr>))"

definition GetConnectionID :: "ptr \<Rightarrow> sstate \<Rightarrow> (panic + 64 word) \<times> sstate" where
  "GetConnectionID db g =
     (case load (conns g) db of
        Inl p \<Rightarrow> (Inl p, g)
      | Inr c \<Rightarrow> (Inr (connectionID c), g))"

definition GetConnectionString :: "ptr \<Rightarrow> sstate \<Rightarrow> (panic + string) \<times> sstate" where
  "GetConnectionString db g =
     (case load (conns g) db of
        Inl p \<Rightarrow> (Inl p, g)
      | Inr c \<Rightarrow> (Inr (connectionString c), g))"

text \<open>
  What a client of the package can do to its state: call \<open>GetInstance\<close>, or a method on a
  pointer. \<open>after_calls\<close> is the state after a sequence of such calls, in order; a call
  that panics leaves the state it reached.
\<close>

datatype call =
    CallGetInstance
  | CallConnect ptr
  | CallDisconnect ptr
  | CallQuery ptr string
  | CallGetConnectionID ptr
  | CallGetConnectionString ptr

fun after_call :: "call \<Rightarrow> sstate \<Rightarrow> sstate" where
  "after_call CallGetInstance g = snd (GetInstance g)"
| "after_call (CallConnect db) g = snd (Connect db g)"
| "after_call (CallDisconnect db) g = snd (Disconnect db g)"
| "after_call (CallQuery db sql) g = snd (Query db sql g)"
| "after_call (CallGetConnectionID db) g = snd (GetConnectionID db g)"
| "after_call (CallGetConnectionString db) g = snd (GetConnectionString db g)"

fun after_calls :: "call list \<Rightarrow> sstate \<Rightarrow> sstate" where
  "after_calls [] g = g"
| "after_calls (c # cs) g = after_calls cs (after_call c g)"

text \<open>The "instance created" lines among the printed lines: one per run of the initializer.\<close>

fun is_created :: "line \<Rightarrow> bool" where
  "is_created (InstanceCreated n) = True"
| "is_created l = False"

definition created_lines :: "line list \<Rightarrow> line list" where
  "created_lines ls = filter is_created ls"

section \<open>Singleton: concurrent callers\<close>

text \<open>
  Concurrent calls of \<open>GetInstance\<close> as an interleaving of the steps of their threads
  on one shared memory, which is what Go provides for the synchronising operations of the
  \<open>Once\<close> and for variables accessed without a data race. A step is one statement that
  accesses shared memory. \<open>once.Do(f)\<close> is the one of Go's \<open>sync\<close> package:
  load \<open>done\<close> and return if it is set; otherwise lock the mutex of the \<open>Once\<close>, load \<open>done\<close>
  again, and if it is still clear call \<open>f\<close> and then store \<open>done\<close>; unlock. The program
  counter of a thread says which step it takes next:
  \<^item> \<open>AtDo\<close>: the first load of \<open>done\<close>;
  \<^item> \<open>AtLock\<close>: locking the mutex, possible only while no thread holds it;
  \<^item> \<open>AtCheck\<close>: the second load of \<open>done\<close>, under the mutex;
  \<^item> \<open>AtIncrement\<close>, \<open>AtAssign\<close>, \<open>AtPrint\<close>: the three statements of the function literal;
  \<^item> \<open>AtStoreDone\<close>: the deferred store to \<open>done\<close>;
  \<^item> \<open>AtUnlock\<close>: the deferred unlock;
  \<^item> \<open>AtReturn\<close>: \<open>return instance\<close>, which reads the variable;
  \<^item> \<open>Returned p\<close>: the call has returned \<open>p\<close>.
\<close>

datatype pc =
    AtDo
  | AtLock
  | AtCheck
  | AtIncrement
  | AtAssign
  | AtPrint
  | AtStoreDone
  | AtUnlock
  | AtReturn
  | Returned ptr

record cstate =
  shared :: sstate
  once_m :: "nat option"
  threads :: "pc list"

definition goto :: "cstate \<Rightarrow> nat \<Rightarrow> pc \<Rightarrow> cstate" where
  "goto s i l = s\<lparr>threads := (threads s)[i := l]\<rparr>"

text \<open>The step of thread \<open>i\<close>; \<open>None\<close> when the thread is blocked, has returned, or does not exist.\<close>

definition step :: "cstate \<Rightarrow> nat \<Rightarrow> cstate option" where
  "step s i =
     (if i < length (threads s) then
        (case threads s ! i of
           AtDo \<Rightarrow> Some (goto s i (if once_done (shared s) then AtReturn else AtLock))
         | AtLock \<Rightarrow>
             (if once_m s = None then Some (goto (s\<lparr>once_m := Some i\<rparr>) i AtCheck) else None)
         | AtCheck \<Rightarrow> Some (goto s i (if once_done (shared s) then AtUnlock else AtIncrement))
         | AtIncrement \<Rightarrow> Some (goto (s\<lparr>shared := func1_increment (shared s)\<rparr>) i AtAssign)
         | AtAssign \<Rightarrow> Some (goto (s\<lparr>shared := func1_assign (shared s)\<rparr>) i AtPrint)
         | AtPrint \<Rightarrow> Some (goto (s\<lparr>shared := func1_print (shared s)\<rparr>) i AtStoreDone)
         | AtStoreDone \<Rightarrow> Some (goto (s\<lparr>shared := (shared s)\<lparr>once_done := True\<rparr>\<rparr>) i AtUnlock)
         | AtUnlock \<Rightarrow> Some (goto (s\<lparr>once_m := None\<rparr>) i AtReturn)
         | AtReturn \<Rightarrow> Some (goto s i (Returned (instance_ptr (shared s))))
         | Returned p \<Rightarrow> None)
      else None)"

text \<open>
  A schedule is the list of the threads that step, in order; \<open>run\<close> is the state it leads
  to, \<open>None\<close> if it asks a thread to step that cannot.
\<close>

fun run :: "nat list \<Rightarrow> cstate \<Rightarrow> cstate option" where
  "run [] s = Some s"
| "run (i # sched) s = (case step s i of None \<Rightarrow> None | Some s' \<Rightarrow> run sched s')"

text \<open>\<open>n\<close> first-time callers: the package is in its start state and each thread is about to call.\<close>

definition first_callers :: "nat \<Rightarrow> cstate" where
  "first_callers n = \<lparr>shared = program_start, once_m = None, threads = replicate n AtDo\<rparr>"

fun has_returned :: "pc \<Rightarrow> bool" where
  "has_returned (Returned p) = True"
| "has_returned l = False"

definition all_returned :: "cstate \<Rightarrow> bool" where
  "all_returned s = list_all has_returned (threads s)"

section \<open>Singleton: invariants\<close>

text \<open>
  What holds of the package state in every run of calls from program start: before the
  first \<open>GetInstance\<close> nothing has been created, afterwards \<open>instance\<close> is the one
  connection, which has the identifier 1.
\<close>

definition registry_ok :: "sstate \<Rightarrow> bool" where
  "registry_ok g =
     (if once_done g then
        instance_ptr g = Addr 0 \<and> connID g = 1 \<and> length (conns g) = 1
        \<and> connectionID (conns g ! 0) = 1
        \<and> connectionString (conns g ! 0) = ''postgresql://localhost:5432/mydb''
      else instance_ptr g = Null \<and> connID g = 0 \<and> conns g = [])"

text \<open>
  The invariant of the interleaving. A thread holds the mutex exactly at the program
  points from the second load of \<open>done\<close> to the unlock; the statements of the function
  literal are reached only while \<open>done\<close> is clear, the unlock and the return only once it
  is set, and a returned pointer is the address of the one connection. The package state
  is determined by \<open>done\<close> and the program point of the thread that holds the mutex.
\<close>

fun holds_mutex :: "pc \<Rightarrow> bool" where
  "holds_mutex AtCheck = True"
| "holds_mutex AtIncrement = True"
| "holds_mutex AtAssign = True"
| "holds_mutex AtPrint = True"
| "holds_mutex AtStoreDone = True"
| "holds_mutex AtUnlock = True"
| "holds_mutex l = False"

fun done_ok :: "pc \<Rightarrow> bool \<Rightarrow> bool" where
  "done_ok AtIncrement d = (\<not> d)"
| "done_ok AtAssign d = (\<not> d)"
| "done_ok AtPrint d = (\<not> d)"
| "done_ok AtStoreDone d = (\<not> d)"
| "done_ok AtUnlock d = d"
| "done_ok AtReturn d = d"
| "done_ok (Returned p) d = (d \<and> p = Addr 0)"
| "done_ok l d = True"

definition holder_pc :: "cstate \<Rightarrow> pc option" where
  "holder_pc s = (case once_m s of None \<Rightarrow> None | Some i \<Rightarrow> Some (threads s ! i))"

fun expected_shared :: "bool \<Rightarrow> pc option \<Rightarrow> sstate" where
  "expected_shared True hp = snd (GetInstance program_start)"
| "expected_shared False (Some AtAssign) = func1_increment program_start"
| "expected_shared False (Some AtPrint) = func1_assign (func1_increment program_start)"
| "expected_shared False (Some AtStoreDone) =
     func1_print (func1_assign (func1_increment program_start))"
| "expected_shared False hp = program_start"

definition locals_ok :: "nat option \<Rightarrow> bool \<Rightarrow> pc list \<Rightarrow> bool" where
  "locals_ok m d t \<longleftrightarrow>
     (\<forall>j < length t. (holds_mutex (t ! j) \<longleftrightarrow> m = Some j) \<and> done_ok (t ! j) d)"

definition once_inv :: "cstate \<Rightarrow> bool" where
  "once_inv s \<longleftrightarrow>
     locals_ok (once_m s) (once_done (shared s)) (threads s)
     \<and> (\<forall>i. once_m s = Some i \<longrightarrow> i < length (threads s))
     \<and> shared s = expected_shared (once_done (shared s)) (holder_pc s)"

text \<open>
  The number of steps a thread has left at most, and their sum over the threads: every
  step makes it smaller.
\<close>

fun weight :: "pc \<Rightarrow> nat" where
  "weight AtDo = 9"
| "weight AtLock = 8"
| "weight AtCheck = 7"
| "weight AtIncrement = 6"
| "weight AtAssign = 5"
| "weight AtPrint = 4"
| "weight AtStoreDone = 3"
| "weight AtUnlock = 2"
| "weight AtReturn = 1"
| "weight (Returned p) = 0"

definition remaining :: "cstate \<Rightarrow> nat" where
  "remaining s = sum_list (map weight (threads s))"

section \<open>Factory: properties\<close>

lemmas payment_types = CreditCard_def PayPal_def BankTransfer_def

text \<open>
  C6. With the bank-transfer discriminant and account details the factory returns a
  processor whose name is "Bank Transfer"; with the discriminant "unknown" it returns an
  error whose message ends in the tag "unknown"; it returns an error exactly when the
  discriminant is none of credit, paypal, bank, and the message of that error is
  "unknown payment type: " followed by the tag.
\<close>

theorem CreatePaymentProcessor_dispatch:
  "(\<exists>p. CreatePaymentProcessor BankTransfer
          (Some [''accountNumber'' \<mapsto> ''987654321'', ''routingNumber'' \<mapsto> ''123456789'']) = Inr p
        \<and> GetName p = ''Bank Transfer'')
   \<and> (\<exists>p. CreatePaymentProcessor ''bank'' d = Inr p \<and> GetName p = ''Bank Transfer'')
   \<and> CreatePaymentProcessor ''unknown'' d = Inl (''unknown payment type: '' @ ''unknown'')
   \<and> ((\<exists>msg. CreatePaymentProcessor t d = Inl msg) \<longleftrightarrow> t \<notin> {''credit'', ''paypal'', ''bank''})
   \<and> (\<forall>msg. CreatePaymentProcessor t d = Inl msg \<longrightarrow> msg = ''unknown payment type: '' @ t)"
  by (simp add: CreatePaymentProcessor_def payment_types)

theorem CreatePaymentProcessor_dispatch_witness:
  "CreatePaymentProcessor ''unknown'' None = Inl ''unknown payment type: unknown''
   \<and> CreatePaymentProcessor ''cash'' None = Inl ''unknown payment type: cash''
   \<and> ''cash'' \<notin> {''credit'', ''paypal'', ''bank''}"
  using CreatePaymentProcessor_dispatch [of None "''cash''"]
  by (simp add: CreatePaymentProcessor_def payment_types)

text \<open>
  C9, amended. A credit-card processor made by the factory panics in \<open>Process\<close> with a
  slice bound out of range when the "cardNumber" entry of the details has fewer than four
  bytes, which includes an absent key and the \<open>nil\<close> map; the factory itself accepts any
  details. With four bytes or more \<open>Process\<close> returns after printing the last four bytes.
\<close>

theorem CreditCardProcessor_Process_short_card:
  "\<exists>p. CreatePaymentProcessor CreditCard d = Inr p
       \<and> (length (index_details d ''cardNumber'') < 4
            \<longrightarrow> Process p amount = Inl SliceBoundsOutOfRange)
       \<and> (4 \<le> length (index_details d ''cardNumber'')
            \<longrightarrow> (\<exists>line. Process p amount = Inr line))
       \<and> (d = None \<or> (\<exists>m. d = Some m \<and> m ''cardNumber'' = None)
            \<longrightarrow> Process p amount = Inl SliceBoundsOutOfRange)"
  by (auto simp: CreatePaymentProcessor_def payment_types last_four_def index_details_def
        split: option.splits)

theorem CreditCardProcessor_Process_short_card_witness:
  "(\<exists>p. CreatePaymentProcessor CreditCard (Some [''cardNumber'' \<mapsto> ''123'']) = Inr p
       \<and> length (index_details (Some [''cardNumber'' \<mapsto> ''123'']) ''cardNumber'') < 4
       \<and> Process p (0::int) = Inl SliceBoundsOutOfRange)
   \<and> (\<exists>p. CreatePaymentProcessor CreditCard None = Inr p
       \<and> Process p (0::int) = Inl SliceBoundsOutOfRange)
   \<and> (\<exists>p. CreatePaymentProcessor CreditCard (Some [''cardNumber'' \<mapsto> ''1234567890123456'']) = Inr p
       \<and> 4 \<le> length (index_details (Some [''cardNumber'' \<mapsto> ''1234567890123456'']) ''cardNumber'')
       \<and> Process p (0::int) = Inr (ViaCreditCard 0 ''3456''))"
  using CreditCardProcessor_Process_short_card [of "Some [''cardNumber'' \<mapsto> ''123'']" "0::int"]
    CreditCardProcessor_Process_short_card [of None "0::int"]
    CreditCardProcessor_Process_short_card [of "Some [''cardNumber'' \<mapsto> ''1234567890123456'']" "0::int"]
  by (simp add: CreatePaymentProcessor_def payment_types last_four_def index_details_def)

text \<open>
  C9 as stated fails: the bound is in bytes, not in characters. The card number "e12"
  with an acute accent on the e is three characters in four bytes (\<open>0xC3 0xA9\<close> encode
  the accented e), so it is shorter than four characters, and \<open>Process\<close> does not panic:
  it prints the four bytes.
\<close>

theorem CreditCardProcessor_Process_characters_counterexample:
  "character_count [CHR 0xC3, CHR 0xA9, CHR ''1'', CHR ''2''] = 3
   \<and> length [CHR 0xC3, CHR 0xA9, CHR ''1'', CHR ''2''] = 4
   \<and> CreatePaymentProcessor CreditCard
        (Some [''cardNumber'' \<mapsto> [CHR 0xC3, CHR 0xA9, CHR ''1'', CHR ''2'']]) =
       Inr (CreditCardProcessor [CHR 0xC3, CHR 0xA9, CHR ''1'', CHR ''2''] [])
   \<and> Process (CreditCardProcessor [CHR 0xC3, CHR 0xA9, CHR ''1'', CHR ''2''] []) (0::int) =
       Inr (ViaCreditCard 0 [CHR 0xC3, CHR 0xA9, CHR ''1'', CHR ''2''])"
  by (simp add: character_count_def is_continuation_byte_def CreatePaymentProcessor_def
      payment_types index_details_def last_four_def)

text \<open>
  C10. For each of the discriminants credit, paypal and bank the factory succeeds for every
  details map, the \<open>nil\<close> map included: no key is required, and each field of the processor
  is the entry of its key, the empty string when the key is absent.
\<close>

theorem CreatePaymentProcessor_known_total:
  "CreatePaymentProcessor CreditCard d
     = Inr (CreditCardProcessor (index_details d ''cardNumber'') (index_details d ''cvv''))
   \<and> CreatePaymentProcessor PayPal d = Inr (PayPalProcessor (index_details d ''email''))
   \<and> CreatePaymentProcessor BankTransfer d
     = Inr (BankTransferProcessor (index_details d ''accountNumber'')
              (index_details d ''routingNumber''))
   \<and> index_details None k = []
   \<and> (\<forall>m. m k = None \<longrightarrow> index_details (Some m) k = [])
   \<and> (\<forall>m v. m k = Some v \<longrightarrow> index_details (Some m) k = v)
   \<and> CreatePaymentProcessor CreditCard None = Inr (CreditCardProcessor [] [])
   \<and> CreatePaymentProcessor PayPal None = Inr (PayPalProcessor [])
   \<and> CreatePaymentProcessor BankTransfer None = Inr (BankTransferProcessor [] [])"
  by (simp add: CreatePaymentProcessor_def payment_types index_details_def)

theorem CreatePaymentProcessor_known_total_witness:
  "CreatePaymentProcessor PayPal (Some [''cvv'' \<mapsto> ''123'']) = Inr (PayPalProcessor [])
   \<and> [''cvv'' \<mapsto> ''123''] ''email'' = None
   \<and> index_details (Some [''cvv'' \<mapsto> ''123'']) ''email'' = []
   \<and> [''cvv'' \<mapsto> ''123''] ''cvv'' = Some ''123''
   \<and> index_details (Some [''cvv'' \<mapsto> ''123'']) ''cvv'' = ''123''"
  using CreatePaymentProcessor_known_total [of "Some [''cvv'' \<mapsto> ''123'']" "''email''"]
    CreatePaymentProcessor_known_total [of "Some [''cvv'' \<mapsto> ''123'']" "''cvv''"]
  by (simp add: index_details_def)

section \<open>Builder: properties\<close>

lemmas setter_defs =
  ServerConfigBuilder_Host_def ServerConfigBuilder_Port_def ServerConfigBuilder_EnableSSL_def
  ServerConfigBuilder_Timeout_def ServerConfigBuilder_MaxConnections_def
  ServerConfigBuilder_ReadTimeout_def ServerConfigBuilder_WriteTimeout_def
  ServerConfigBuilder_DatabaseURL_def ServerConfigBuilder_EnableCache_def
  ServerConfigBuilder_LogLevel_def

lemma load_Addr: "a < length st \<Longrightarrow> load st (Addr a) = Inr (st ! a)"
  by (simp add: load_def)

lemma load_Inr: "load st p = Inr v \<Longrightarrow> \<exists>a. p = Addr a \<and> a < length st \<and> v = st ! a"
  by (auto simp: load_def split: ptr.splits if_splits)

lemma assign_config_Addr:
  "a < length (builders h) \<Longrightarrow>
   assign_config (Addr a) upd h =
     Inr (Addr a, h\<lparr>builders := (builders h)[a := (builders h ! a)\<lparr>config := upd (config (builders h ! a))\<rparr>]\<rparr>)"
  by (simp add: assign_config_def load_def store_def)

lemma assign_config_Inr:
  "assign_config b upd h = Inr (b', h') \<Longrightarrow>
   b' = b \<and> configs h' = configs h \<and> length (builders h') = length (builders h)"
  by (auto simp: assign_config_def store_def split: sum.splits ptr.splits)

lemma call_setter_Inr:
  "call_setter c b h = Inr (b', h') \<Longrightarrow>
   b' = b \<and> configs h' = configs h \<and> length (builders h') = length (builders h)"
  by (cases c) (simp_all add: setter_defs assign_config_Inr)

lemma call_setters_Inr:
  "call_setters cs b h = Inr (b', h') \<Longrightarrow>
   b' = b \<and> configs h' = configs h \<and> length (builders h') = length (builders h)"
proof (induction cs arbitrary: h)
  case Nil
  then show ?case by simp
next
  case (Cons c cs)
  from Cons.prems obtain h1 where
    c: "call_setter c b h = Inr (b, h1)" and rest: "call_setters cs b h1 = Inr (b', h')"
    by (auto simp: and_then_def split: sum.splits dest: call_setter_Inr)
  from call_setter_Inr [OF c] Cons.IH [OF rest] show ?case by simp
qed

text \<open>
  C5. \<open>Build()\<close> on a new builder on which only the host "localhost" and the port 8080 have
  been set succeeds, and the configuration it returns has SSL disabled, a timeout of 30
  seconds, at most 100 connections and the log level "info".
\<close>

theorem minimalConfig_defaults:
  "\<exists>h' c. minimalConfig h = Inr (Inr (Addr (length (configs h))), h')
       \<and> load (configs h') (Addr (length (configs h))) = Inr c
       \<and> Host c = ''localhost'' \<and> Port c = 8080
       \<and> SSL c = False \<and> Timeout c = 30 * Second \<and> Timeout c = 30000000000
       \<and> MaxConnections c = 100 \<and> LogLevel c = ''info''"
  by (simp add: minimalConfig_def and_then_def NewServerConfigBuilder_def setter_defs
      assign_config_def load_def store_def ServerConfigBuilder_Build_def
      validLogLevels_def index_bool_def Second_def)

text \<open>
  C7. Each of the ten setters, called on the builder at an allocated address, returns that
  same address, and the store afterwards is the store before in which the configuration
  staged in that builder has the setter's own field set to the argument: every other
  field, every other builder and every built configuration is as before
  (\<open>restage_frame\<close>).
\<close>

theorem setters_return_receiver_and_assign_one_field:
  assumes "a < length (builders h)"
  shows "ServerConfigBuilder_Host (Addr a) host h =
           Inr (Addr a, restage h a ((staged h a)\<lparr>Host := host\<rparr>))
       \<and> ServerConfigBuilder_Port (Addr a) port h =
           Inr (Addr a, restage h a ((staged h a)\<lparr>Port := port\<rparr>))
       \<and> ServerConfigBuilder_EnableSSL (Addr a) ssl h =
           Inr (Addr a, restage h a ((staged h a)\<lparr>SSL := ssl\<rparr>))
       \<and> ServerConfigBuilder_Timeout (Addr a) t h =
           Inr (Addr a, restage h a ((staged h a)\<lparr>Timeout := t\<rparr>))
       \<and> ServerConfigBuilder_MaxConnections (Addr a) mx h =
           Inr (Addr a, restage h a ((staged h a)\<lparr>MaxConnections := mx\<rparr>))
       \<and> ServerConfigBuilder_ReadTimeout (Addr a) rt h =
           Inr (Addr a, restage h a ((staged h a)\<lparr>ReadTimeout := rt\<rparr>))
       \<and> ServerConfigBuilder_WriteTimeout (Addr a) wt h =
           Inr (Addr a, restage h a ((staged h a)\<lparr>WriteTimeout := wt\<rparr>))
       \<and> ServerConfigBuilder_DatabaseURL (Addr a) url h =
           Inr (Addr a, restage h a ((staged h a)\<lparr>DatabaseURL := url\<rparr>))
       \<and> ServerConfigBuilder_EnableCache (Addr a) cache h =
           Inr (Addr a, restage h a ((staged h a)\<lparr>CacheEnabled := cache\<rparr>))
       \<and> ServerConfigBuilder_LogLevel (Addr a) level h =
           Inr (Addr a, restage h a ((staged h a)\<lparr>LogLevel := level\<rparr>))"
  using assms by (simp add: setter_defs assign_config_Addr staged_def restage_def)

lemma restage_frame:
  "configs (restage h a c) = configs h
   \<and> length (builders (restage h a c)) = length (builders h)
   \<and> (a' \<noteq> a \<longrightarrow> builders (restage h a c) ! a' = builders h ! a')
   \<and> (a < length (builders h) \<longrightarrow> staged (restage h a c) a = c)"
  by (simp add: restage_def staged_def)

theorem setters_return_receiver_and_assign_one_field_witness:
  "ServerConfigBuilder_Port (Addr 0) 3000 no_host_port_99999 =
     Inr (Addr 0, restage no_host_port_99999 0 ((staged no_host_port_99999 0)\<lparr>Port := 3000\<rparr>))
   \<and> (0::nat) < length (builders no_host_port_99999)
   \<and> staged (restage no_host_port_99999 0 ((staged no_host_port_99999 0)\<lparr>Port := 3000\<rparr>)) 0
       = default_config\<lparr>Port := 3000\<rparr>"
  using setters_return_receiver_and_assign_one_field [of 0 no_host_port_99999 _ 3000]
  by (simp add: no_host_port_99999_def default_config_def staged_def restage_def)

text \<open>
  C4, amended. \<open>Build()\<close> makes its checks in the order host, port, log level and fails with
  the \<open>ValidationError\<close> of the first that fails: it names Host when the host is empty;
  Port when the host is not empty and the port is outside 1..65535; LogLevel when host and
  port pass and the log level is none of debug, info, warn, error. It succeeds otherwise.
\<close>

theorem Build_first_failing_check:
  assumes "load (builders h) b = Inr bs"
  shows "(Host (config bs) = [] \<longrightarrow>
            ServerConfigBuilder_Build b h =
              Inr (Inl \<lparr>Field' = ''Host'', Message = ''host is required''\<rparr>, h))
       \<and> (Host (config bs) \<noteq> [] \<and> (Port (config bs) < 1 \<or> 65535 < Port (config bs)) \<longrightarrow>
            ServerConfigBuilder_Build b h =
              Inr (Inl \<lparr>Field' = ''Port'', Message = ''port must be between 1 and 65535''\<rparr>, h))
       \<and> (Host (config bs) \<noteq> [] \<and> 1 \<le> Port (config bs) \<and> Port (config bs) \<le> 65535
            \<and> LogLevel (config bs) \<notin> {''debug'', ''info'', ''warn'', ''error''} \<longrightarrow>
            ServerConfigBuilder_Build b h =
              Inr (Inl \<lparr>Field' = ''LogLevel'',
                        Message = ''log level must be one of: debug, info, warn, error''\<rparr>, h))
       \<and> (Host (config bs) \<noteq> [] \<and> 1 \<le> Port (config bs) \<and> Port (config bs) \<le> 65535
            \<and> LogLevel (config bs) \<in> {''debug'', ''info'', ''warn'', ''error''} \<longrightarrow>
            ServerConfigBuilder_Build b h =
              Inr (Inr (Addr (length (configs h))), h\<lparr>configs := configs h @ [config bs]\<rparr>))"
  using assms
  by (auto simp: ServerConfigBuilder_Build_def validLogLevels_def index_bool_def)

text \<open>
  C4 as stated fails: on the builder with no host and the port 99999 the port is outside
  1..65535, and \<open>Build()\<close> names the field Host, not Port.
\<close>

theorem Build_port_counterexample:
  "load (builders no_host_port_99999) (Addr 0) = Inr (builders no_host_port_99999 ! 0)
   \<and> Port (config (builders no_host_port_99999 ! 0)) = 99999
   \<and> \<not> (1 \<le> Port (config (builders no_host_port_99999 ! 0))
          \<and> Port (config (builders no_host_port_99999 ! 0)) \<le> 65535)
   \<and> ServerConfigBuilder_Build (Addr 0) no_host_port_99999 =
        Inr (Inl \<lparr>Field' = ''Host'', Message = ''host is required''\<rparr>, no_host_port_99999)
   \<and> Field' \<lparr>Field' = ''Host'', Message = ''host is required''\<rparr> \<noteq> ''Port''"
  by (simp add: no_host_port_99999_def default_config_def ServerConfigBuilder_Build_def load_def)

theorem Build_first_failing_check_witness:
  "load (builders validation_demo) (Addr 0) = Inr (builders validation_demo ! 0)
   \<and> ServerConfigBuilder_Build (Addr 0) validation_demo =
        Inr (Inl \<lparr>Field' = ''Host'', Message = ''host is required''\<rparr>, validation_demo)
   \<and> load (builders validation_demo) (Addr 1) = Inr (builders validation_demo ! 1)
   \<and> Port (config (builders validation_demo ! 1)) = 99999
   \<and> ServerConfigBuilder_Build (Addr 1) validation_demo =
        Inr (Inl \<lparr>Field' = ''Port'', Message = ''port must be between 1 and 65535''\<rparr>,
             validation_demo)
   \<and> load (builders validation_demo) (Addr 2) = Inr (builders validation_demo ! 2)
   \<and> LogLevel (config (builders validation_demo ! 2)) = ''invalid''
   \<and> ServerConfigBuilder_Build (Addr 2) validation_demo =
        Inr (Inl \<lparr>Field' = ''LogLevel'',
                  Message = ''log level must be one of: debug, info, warn, error''\<rparr>,
             validation_demo)
   \<and> load (builders validation_demo) (Addr 3) = Inr (builders validation_demo ! 3)
   \<and> ServerConfigBuilder_Build (Addr 3) validation_demo =
        Inr (Inr (Addr 0),
             validation_demo\<lparr>configs := [default_config\<lparr>Host := ''localhost'', Port := 8080\<rparr>]\<rparr>)"
  using Build_first_failing_check [of validation_demo "Addr 0" "builders validation_demo ! 0"]
    Build_first_failing_check [of validation_demo "Addr 1" "builders validation_demo ! 1"]
    Build_first_failing_check [of validation_demo "Addr 2" "builders validation_demo ! 2"]
    Build_first_failing_check [of validation_demo "Addr 3" "builders validation_demo ! 3"]
  by (simp add: validation_demo_def default_config_def load_def)

text \<open>
  C8. A successful \<open>Build()\<close> returns the address of a configuration that was not
  allocated before, holding a copy of the configuration staged in the builder, and leaves
  the builders as they are. After any sequence of setter calls on the same builder the
  configuration at the returned address is still that copy.
\<close>

theorem Build_returns_fresh_copy:
  assumes "ServerConfigBuilder_Build b h = Inr (Inr p, h1)"
    and "call_setters cs b h1 = Inr (b', h2)"
  shows "p = Addr (length (configs h))
       \<and> load (configs h) p = Inl NilDereference
       \<and> builders h1 = builders h
       \<and> (\<exists>bs. load (builders h) b = Inr bs \<and> load (configs h1) p = Inr (config bs)
               \<and> load (configs h2) p = Inr (config bs))
       \<and> b' = b"
proof -
  from assms(1) obtain bs where bs: "load (builders h) b = Inr bs"
    and p: "p = Addr (length (configs h))"
    and h1: "h1 = h\<lparr>configs := configs h @ [config bs]\<rparr>"
    by (auto simp: ServerConfigBuilder_Build_def split: sum.splits if_splits)
  from call_setters_Inr [OF assms(2)] have fr: "b' = b" "configs h2 = configs h1"
    by simp_all
  show ?thesis using bs p h1 fr by (simp add: load_def)
qed

theorem Build_returns_fresh_copy_witness:
  "ServerConfigBuilder_Build (Addr 3) validation_demo =
     Inr (Inr (Addr 0),
          validation_demo\<lparr>configs := [default_config\<lparr>Host := ''localhost'', Port := 8080\<rparr>]\<rparr>)
   \<and> call_setters [CallPort 9, CallHost ''other'', CallEnableSSL True] (Addr 3)
        (validation_demo\<lparr>configs := [default_config\<lparr>Host := ''localhost'', Port := 8080\<rparr>]\<rparr>) =
     Inr (Addr 3,
          \<lparr>builders = (builders validation_demo)
             [3 := \<lparr>config = default_config\<lparr>Host := ''other'', Port := 9, SSL := True\<rparr>\<rparr>],
           configs = [default_config\<lparr>Host := ''localhost'', Port := 8080\<rparr>]\<rparr>)
   \<and> load (configs \<lparr>builders = (builders validation_demo)
             [3 := \<lparr>config = default_config\<lparr>Host := ''other'', Port := 9, SSL := True\<rparr>\<rparr>],
           configs = [default_config\<lparr>Host := ''localhost'', Port := 8080\<rparr>]\<rparr>) (Addr 0)
       = Inr (default_config\<lparr>Host := ''localhost'', Port := 8080\<rparr>)"
proof -
  have b: "ServerConfigBuilder_Build (Addr 3) validation_demo =
     Inr (Inr (Addr 0),
          validation_demo\<lparr>configs := [default_config\<lparr>Host := ''localhost'', Port := 8080\<rparr>]\<rparr>)"
    by (simp add: ServerConfigBuilder_Build_def validation_demo_def default_config_def load_def
        validLogLevels_def index_bool_def)
  have s: "call_setters [CallPort 9, CallHost ''other'', CallEnableSSL True] (Addr 3)
        (validation_demo\<lparr>configs := [default_config\<lparr>Host := ''localhost'', Port := 8080\<rparr>]\<rparr>) =
     Inr (Addr 3,
          \<lparr>builders = (builders validation_demo)
             [3 := \<lparr>config = default_config\<lparr>Host := ''other'', Port := 9, SSL := True\<rparr>\<rparr>],
           configs = [default_config\<lparr>Host := ''localhost'', Port := 8080\<rparr>]\<rparr>)"
    by (simp add: and_then_def setter_defs assign_config_def load_def store_def
        validation_demo_def default_config_def)
  from Build_returns_fresh_copy [OF b s] b s show ?thesis
    by (simp add: load_def)
qed

section \<open>Singleton: properties\<close>

lemmas func1_defs = func1_increment_def func1_assign_def func1_print_def GetInstance_func1_def

lemmas method_defs =
  Connect_def Disconnect_def Query_def GetConnectionID_def GetConnectionString_def

lemma GetInstance_completed: "once_done g \<Longrightarrow> GetInstance g = (Inr (instance_ptr g), g)"
  by (simp add: GetInstance_def GetInstance_with_def once_Do_def)

lemma GetInstance_first:
  "\<not> once_done g \<Longrightarrow>
   GetInstance g =
     (Inr (Addr (length (conns g))),
      (func1_print (func1_assign (func1_increment g)))\<lparr>once_done := True\<rparr>)"
  by (simp add: GetInstance_def GetInstance_with_def once_Do_def func1_defs)

lemma length_store: "length (store st p v) = length st"
  by (simp add: store_def split: ptr.splits)

lemma created_lines_append:
  "created_lines (ls @ [l]) = (if is_created l then created_lines ls @ [l] else created_lines ls)"
  by (simp add: created_lines_def)

lemma after_call_completed:
  assumes "once_done g"
  shows "once_done (after_call c g) \<and> instance_ptr (after_call c g) = instance_ptr g
       \<and> connID (after_call c g) = connID g
       \<and> length (conns (after_call c g)) = length (conns g)
       \<and> created_lines (stdout (after_call c g)) = created_lines (stdout g)"
  using assms
  by (cases c)
     (auto simp: GetInstance_completed method_defs length_store created_lines_append
           split: sum.splits)

lemma after_calls_completed:
  "once_done g \<Longrightarrow>
   once_done (after_calls cs g) \<and> instance_ptr (after_calls cs g) = instance_ptr g
       \<and> connID (after_calls cs g) = connID g
       \<and> length (conns (after_calls cs g)) = length (conns g)
       \<and> created_lines (stdout (after_calls cs g)) = created_lines (stdout g)"
proof (induction cs arbitrary: g)
  case Nil
  then show ?case by simp
next
  case (Cons c cs)
  from after_call_completed [OF Cons.prems, of c] Cons.IH [of "after_call c g"]
  show ?case by simp
qed

text \<open>
  C3. Once \<open>done\<close> is set, \<open>GetInstance\<close> returns the value of \<open>instance\<close> and leaves the
  whole package state as it is. After any sequence of calls of the package \<open>done\<close> is
  still set, \<open>instance\<close> and \<open>connID\<close> have the same values, no connection has been
  allocated and no "instance created" line printed, so the initializer has not run again,
  and \<open>GetInstance\<close> still returns the same pointer.
\<close>

theorem GetInstance_completed_is_terminal:
  assumes "once_done g"
  shows "GetInstance g = (Inr (instance_ptr g), g)
       \<and> once_done (after_calls cs g)
       \<and> instance_ptr (after_calls cs g) = instance_ptr g
       \<and> connID (after_calls cs g) = connID g
       \<and> length (conns (after_calls cs g)) = length (conns g)
       \<and> created_lines (stdout (after_calls cs g)) = created_lines (stdout g)
       \<and> fst (GetInstance (after_calls cs g)) = Inr (instance_ptr g)"
  using assms after_calls_completed [OF assms, of cs]
  by (simp add: GetInstance_completed)

lemma GetInstance_program_start:
  "GetInstance program_start =
     (Inr (Addr 0),
      \<lparr>instance_ptr = Addr 0, once_done = True, connID = 1,
       conns = [\<lparr>connectionString = ''postgresql://localhost:5432/mydb'',
                 isConnected = False, connectionID = 1\<rparr>],
       stdout = [InstanceCreated 1]\<rparr>)"
  by (simp add: GetInstance_first program_start_def func1_defs)

theorem GetInstance_completed_is_terminal_witness:
  "once_done (snd (GetInstance program_start))
   \<and> GetInstance (snd (GetInstance program_start)) =
       (Inr (Addr 0), snd (GetInstance program_start))
   \<and> instance_ptr (after_calls [CallConnect (Addr 0), CallGetInstance, CallQuery (Addr 0) ''SELECT 1'']
        (snd (GetInstance program_start))) = Addr 0
   \<and> connID (after_calls [CallConnect (Addr 0), CallGetInstance, CallQuery (Addr 0) ''SELECT 1'']
        (snd (GetInstance program_start))) = 1
   \<and> fst (GetInstance (after_calls [CallConnect (Addr 0), CallGetInstance, CallQuery (Addr 0) ''SELECT 1'']
        (snd (GetInstance program_start)))) = Inr (Addr 0)"
  using GetInstance_completed_is_terminal
    [of "snd (GetInstance program_start)"
        "[CallConnect (Addr 0), CallGetInstance, CallQuery (Addr 0) ''SELECT 1'']"]
  by (simp add: GetInstance_program_start)

lemma registry_ok_start: "registry_ok program_start"
  by (simp add: registry_ok_def program_start_def)

lemma registry_ok_GetInstance:
  "registry_ok g \<Longrightarrow> fst (GetInstance g) = Inr (Addr 0) \<and> registry_ok (snd (GetInstance g))
     \<and> once_done (snd (GetInstance g))"
  by (cases "once_done g")
     (simp_all add: GetInstance_completed GetInstance_first registry_ok_def func1_defs)

lemma registry_ok_after_call: "registry_ok g \<Longrightarrow> registry_ok (after_call c g)"
proof (cases c)
  case CallGetInstance
  assume "registry_ok g"
  with CallGetInstance show ?thesis by (simp add: registry_ok_GetInstance)
next
  case (CallConnect db)
  assume "registry_ok g"
  with CallConnect show ?thesis
    by (auto simp: registry_ok_def Connect_def load_def store_def
             split: ptr.splits if_splits)
next
  case (CallDisconnect db)
  assume "registry_ok g"
  with CallDisconnect show ?thesis
    by (auto simp: registry_ok_def Disconnect_def load_def store_def
             split: ptr.splits if_splits)
next
  case (CallQuery db sql)
  assume "registry_ok g"
  with CallQuery show ?thesis
    by (auto simp: registry_ok_def Query_def load_def split: ptr.splits if_splits)
next
  case (CallGetConnectionID db)
  assume "registry_ok g"
  with CallGetConnectionID show ?thesis
    by (auto simp: registry_ok_def GetConnectionID_def load_def split: ptr.splits if_splits)
next
  case (CallGetConnectionString db)
  assume "registry_ok g"
  with CallGetConnectionString show ?thesis
    by (auto simp: registry_ok_def GetConnectionString_def load_def split: ptr.splits if_splits)
qed

lemma registry_ok_after_calls: "registry_ok g \<Longrightarrow> registry_ok (after_calls cs g)"
  by (induction cs arbitrary: g) (simp_all add: registry_ok_after_call)

text \<open>
  The function literal of \<open>GetInstance\<close> always returns, and so does \<open>GetInstance\<close>: in
  every state it returns the value of \<open>instance\<close> and leaves \<open>done\<close> set, and after any
  sequence of calls of the package from program start it returns the address of the
  constructed connection. No state of the package is one of a failed initialization.
\<close>

lemma GetInstance_always_returns:
  "fst (GetInstance_func1 g) = Inr ()
   \<and> fst (GetInstance g) = Inr (instance_ptr (snd (GetInstance g)))
   \<and> once_done (snd (GetInstance g))
   \<and> fst (GetInstance (after_calls cs program_start)) = Inr (Addr 0)
   \<and> (\<exists>c. load (conns (snd (GetInstance (after_calls cs program_start)))) (Addr 0) = Inr c
          \<and> connectionID c = 1
          \<and> connectionString c = ''postgresql://localhost:5432/mydb'')"
proof -
  have a: "fst (GetInstance_func1 g) = Inr ()"
    by (simp add: GetInstance_func1_def)
  have b: "fst (GetInstance g) = Inr (instance_ptr (snd (GetInstance g)))
           \<and> once_done (snd (GetInstance g))"
    by (simp add: GetInstance_def GetInstance_with_def once_Do_def GetInstance_func1_def)
  have ok: "registry_ok (after_calls cs program_start)"
    by (simp add: registry_ok_after_calls registry_ok_start)
  from registry_ok_GetInstance [OF ok]
  have c: "fst (GetInstance (after_calls cs program_start)) = Inr (Addr 0)"
    and d: "registry_ok (snd (GetInstance (after_calls cs program_start)))"
    and e: "once_done (snd (GetInstance (after_calls cs program_start)))"
    by simp_all
  from d e have
    "\<exists>c. load (conns (snd (GetInstance (after_calls cs program_start)))) (Addr 0) = Inr c
          \<and> connectionID c = 1
          \<and> connectionString c = ''postgresql://localhost:5432/mydb''"
    by (simp add: registry_ok_def load_def)
  with a b c show ?thesis by simp
qed

section \<open>Singleton: properties of the interleaving\<close>

lemma completed_state:
  "snd (GetInstance program_start) =
     \<lparr>instance_ptr = Addr 0, once_done = True, connID = 1,
       conns = [\<lparr>connectionString = ''postgresql://localhost:5432/mydb'',
                 isConnected = False, connectionID = 1\<rparr>],
       stdout = [InstanceCreated 1]\<rparr>"
  by (simp add: GetInstance_def GetInstance_with_def once_Do_def program_start_def func1_defs)

lemma inv_first_callers: "once_inv (first_callers n)"
  by (simp add: once_inv_def locals_ok_def first_callers_def holder_pc_def program_start_def)

lemma step_length:
  "step s i = Some s' \<Longrightarrow> i < length (threads s) \<and> length (threads s') = length (threads s)"
  by (auto simp: step_def goto_def split: if_splits pc.splits)

lemma goto_simps:
  "threads (goto s i l) = (threads s)[i := l]"
  "once_m (goto s i l) = once_m s"
  "shared (goto s i l) = shared s"
  by (simp_all add: goto_def)

lemma holder_pc_goto:
  "i < length (threads s) \<Longrightarrow>
   holder_pc (goto s i l) = (if once_m s = Some i then Some l else holder_pc s)"
  by (auto simp: holder_pc_def goto_def split: option.splits)

lemma locals_ok_update:
  assumes "locals_ok m d t" and "i < length t"
    and "holds_mutex l \<longleftrightarrow> m' = Some i" and "done_ok l d'"
    and "\<And>j. j < length t \<Longrightarrow> j \<noteq> i \<Longrightarrow> (holds_mutex (t ! j) \<longleftrightarrow> m = Some j)
           \<Longrightarrow> done_ok (t ! j) d
           \<Longrightarrow> (holds_mutex (t ! j) \<longleftrightarrow> m' = Some j) \<and> done_ok (t ! j) d'"
  shows "locals_ok m' d' (t[i := l])"
  unfolding locals_ok_def
proof (intro allI impI)
  fix j assume "j < length (t[i := l])"
  then have j: "j < length t" by simp
  show "(holds_mutex (t[i := l] ! j) \<longleftrightarrow> m' = Some j) \<and> done_ok (t[i := l] ! j) d'"
  proof (cases "j = i")
    case True
    with assms(2-4) show ?thesis by simp
  next
    case False
    from assms(1) j have "(holds_mutex (t ! j) \<longleftrightarrow> m = Some j) \<and> done_ok (t ! j) d"
      by (simp add: locals_ok_def)
    with assms(5) [OF j False] False show ?thesis by simp
  qed
qed

lemma locals_ok_at:
  "locals_ok m d t \<Longrightarrow> i < length t \<Longrightarrow> (holds_mutex (t ! i) \<longleftrightarrow> m = Some i) \<and> done_ok (t ! i) d"
  by (simp add: locals_ok_def)

lemma done_ok_outside: "\<not> holds_mutex l \<Longrightarrow> done_ok l False \<Longrightarrow> done_ok l True"
  by (cases l) simp_all

lemma func1_done:
  "once_done (func1_increment g) = once_done g"
  "once_done (func1_assign g) = once_done g"
  "once_done (func1_print g) = once_done g"
  by (simp_all add: func1_defs)

lemma inv_step:
  assumes "once_inv s" and "step s i = Some s'"
  shows "once_inv s'"
proof -
  from assms(2) have i: "i < length (threads s)"
    by (simp add: step_length)
  from assms(1) have lo: "locals_ok (once_m s) (once_done (shared s)) (threads s)"
    and mi: "\<And>k. once_m s = Some k \<Longrightarrow> k < length (threads s)"
    and sh: "shared s = expected_shared (once_done (shared s)) (holder_pc s)"
    by (simp_all add: once_inv_def)
  note at = locals_ok_at [OF lo i]
  show ?thesis
  proof (cases "threads s ! i")
    case AtDo
    with at have ni: "once_m s \<noteq> Some i" by simp
    from AtDo assms(2) i
    have s': "s' = goto s i (if once_done (shared s) then AtReturn else AtLock)"
      by (simp add: step_def)
    have "locals_ok (once_m s) (once_done (shared s))
            ((threads s)[i := (if once_done (shared s) then AtReturn else AtLock)])"
      using lo i ni by (intro locals_ok_update [where m = "once_m s" and d = "once_done (shared s)"]) auto
    with mi sh ni i show ?thesis
      by (simp add: once_inv_def s' goto_simps holder_pc_goto)
  next
    case AtLock
    with assms(2) i have free: "once_m s = None"
      and s': "s' = goto (s\<lparr>once_m := Some i\<rparr>) i AtCheck"
      by (auto simp: step_def split: if_splits)
    have "locals_ok (Some i) (once_done (shared s)) ((threads s)[i := AtCheck])"
      using lo i free by (intro locals_ok_update [where m = "once_m s" and d = "once_done (shared s)"]) auto
    moreover have "expected_shared (once_done (shared s)) (Some AtCheck)
                   = expected_shared (once_done (shared s)) None"
      by (cases "once_done (shared s)") simp_all
    ultimately show ?thesis using sh free i
      by (simp add: once_inv_def s' goto_simps holder_pc_def)
  next
    case AtCheck
    with at have hi: "once_m s = Some i" by simp
    from AtCheck assms(2) i
    have s': "s' = goto s i (if once_done (shared s) then AtUnlock else AtIncrement)"
      by (simp add: step_def)
    have "locals_ok (once_m s) (once_done (shared s))
            ((threads s)[i := (if once_done (shared s) then AtUnlock else AtIncrement)])"
      using lo i hi by (intro locals_ok_update [where m = "once_m s" and d = "once_done (shared s)"]) auto
    moreover from sh hi AtCheck
    have "shared s = expected_shared (once_done (shared s))
                     (Some (if once_done (shared s) then AtUnlock else AtIncrement))"
      by (cases "once_done (shared s)") (simp_all add: holder_pc_def)
    ultimately show ?thesis using hi i
      by (simp add: once_inv_def s' goto_simps holder_pc_goto)
  next
    case AtIncrement
    with at have hi: "once_m s = Some i" and nd: "\<not> once_done (shared s)" by simp_all
    from AtIncrement assms(2) i
    have s': "s' = goto (s\<lparr>shared := func1_increment (shared s)\<rparr>) i AtAssign"
      by (simp add: step_def)
    have "locals_ok (once_m s) (once_done (shared s)) ((threads s)[i := AtAssign])"
      using lo i hi nd by (intro locals_ok_update [where m = "once_m s" and d = "once_done (shared s)"]) auto
    moreover from sh hi nd AtIncrement have "shared s = program_start"
      by (simp add: holder_pc_def)
    ultimately show ?thesis using hi i nd
      by (simp add: once_inv_def s' goto_simps holder_pc_def func1_done)
  next
    case AtAssign
    with at have hi: "once_m s = Some i" and nd: "\<not> once_done (shared s)" by simp_all
    from AtAssign assms(2) i
    have s': "s' = goto (s\<lparr>shared := func1_assign (shared s)\<rparr>) i AtPrint"
      by (simp add: step_def)
    have "locals_ok (once_m s) (once_done (shared s)) ((threads s)[i := AtPrint])"
      using lo i hi nd by (intro locals_ok_update [where m = "once_m s" and d = "once_done (shared s)"]) auto
    moreover from sh hi nd AtAssign have "shared s = func1_increment program_start"
      by (simp add: holder_pc_def)
    ultimately show ?thesis using hi i nd
      by (simp add: once_inv_def s' goto_simps holder_pc_def func1_done)
  next
    case AtPrint
    with at have hi: "once_m s = Some i" and nd: "\<not> once_done (shared s)" by simp_all
    from AtPrint assms(2) i
    have s': "s' = goto (s\<lparr>shared := func1_print (shared s)\<rparr>) i AtStoreDone"
      by (simp add: step_def)
    have "locals_ok (once_m s) (once_done (shared s)) ((threads s)[i := AtStoreDone])"
      using lo i hi nd by (intro locals_ok_update [where m = "once_m s" and d = "once_done (shared s)"]) auto
    moreover from sh hi nd AtPrint
    have "shared s = func1_assign (func1_increment program_start)"
      by (simp add: holder_pc_def)
    ultimately show ?thesis using hi i nd
      by (simp add: once_inv_def s' goto_simps holder_pc_def func1_done)
  next
    case AtStoreDone
    with at have hi: "once_m s = Some i" and nd: "\<not> once_done (shared s)" by simp_all
    from AtStoreDone assms(2) i
    have s': "s' = goto (s\<lparr>shared := (shared s)\<lparr>once_done := True\<rparr>\<rparr>) i AtUnlock"
      by (simp add: step_def)
    have "locals_ok (once_m s) True ((threads s)[i := AtUnlock])"
      using lo i hi nd
      by (intro locals_ok_update [where m = "once_m s" and d = "once_done (shared s)"])
         (auto intro: done_ok_outside)
    moreover from sh hi nd AtStoreDone
    have "shared s = func1_print (func1_assign (func1_increment program_start))"
      by (simp add: holder_pc_def)
    then have "(shared s)\<lparr>once_done := True\<rparr> = snd (GetInstance program_start)"
      by (simp add: GetInstance_def GetInstance_with_def once_Do_def program_start_def func1_defs)
    moreover have "once_done (snd (GetInstance program_start))"
      by (simp add: completed_state)
    ultimately show ?thesis using hi i
      by (simp add: once_inv_def s' goto_simps holder_pc_def)
  next
    case AtUnlock
    with at have hi: "once_m s = Some i" and d: "once_done (shared s)" by simp_all
    from AtUnlock assms(2) i
    have s': "s' = goto (s\<lparr>once_m := None\<rparr>) i AtReturn"
      by (simp add: step_def)
    have "locals_ok None (once_done (shared s)) ((threads s)[i := AtReturn])"
      using lo i hi d by (intro locals_ok_update [where m = "once_m s" and d = "once_done (shared s)"]) auto
    then show ?thesis using sh hi i d
      by (simp add: once_inv_def s' goto_simps holder_pc_def)
  next
    case AtReturn
    with at have ni: "once_m s \<noteq> Some i" and d: "once_done (shared s)" by simp_all
    from AtReturn assms(2) i
    have s': "s' = goto s i (Returned (instance_ptr (shared s)))"
      by (simp add: step_def)
    from sh d have "shared s = snd (GetInstance program_start)" by simp
    then have ip: "instance_ptr (shared s) = Addr 0" by (simp add: completed_state)
    have "locals_ok (once_m s) (once_done (shared s)) ((threads s)[i := Returned (Addr 0)])"
      using lo i ni d by (intro locals_ok_update [where m = "once_m s" and d = "once_done (shared s)"]) auto
    with mi sh ni i ip show ?thesis
      by (simp add: once_inv_def s' goto_simps holder_pc_goto)
  next
    case (Returned p)
    with assms i show ?thesis by (simp add: step_def)
  qed
qed


lemma inv_run: "once_inv s \<Longrightarrow> run sched s = Some s' \<Longrightarrow> once_inv s'"
proof (induction sched arbitrary: s)
  case Nil
  then show ?case by simp
next
  case (Cons i sched)
  from Cons.prems(2) obtain s1 where
    st: "step s i = Some s1" and rest: "run sched s1 = Some s'"
    by (auto split: option.splits)
  from inv_step [OF Cons.prems(1) st] rest show ?case by (rule Cons.IH)
qed

lemma run_length: "run sched s = Some s' \<Longrightarrow> length (threads s') = length (threads s)"
proof (induction sched arbitrary: s)
  case Nil
  then show ?case by simp
next
  case (Cons i sched)
  from Cons.prems obtain s1 where
    st: "step s i = Some s1" and rest: "run sched s1 = Some s'"
    by (auto split: option.splits)
  from Cons.IH [OF rest] step_length [OF st] show ?case by simp
qed

lemma remaining_goto:
  assumes "i < length (threads s)" and "weight l < weight (threads s ! i)"
  shows "remaining (goto s i l) < remaining s"
proof -
  have "sum_list ((map weight (threads s))[i := weight l])
          = sum_list (map weight (threads s)) + weight l - map weight (threads s) ! i"
    using assms(1) by (intro sum_list_update) simp
  moreover have "map weight (threads s) ! i \<le> sum_list (map weight (threads s))"
    using assms(1) by (intro elem_le_sum_list) simp
  ultimately show ?thesis
    using assms by (simp add: remaining_def goto_simps map_update)
qed

lemma remaining_shared [simp]:
  "remaining (s\<lparr>shared := g\<rparr>) = remaining s"
  "remaining (s\<lparr>once_m := m\<rparr>) = remaining s"
  by (simp_all add: remaining_def)

lemma step_remaining:
  assumes "step s i = Some s'"
  shows "remaining s' < remaining s"
proof -
  from assms have i: "i < length (threads s)" by (simp add: step_length)
  have g: "\<And>t l. threads t = threads s \<Longrightarrow> remaining t = remaining s
             \<Longrightarrow> weight l < weight (threads s ! i) \<Longrightarrow> remaining (goto t i l) < remaining s"
    using i remaining_goto by metis
  from assms i show ?thesis
    by (cases "threads s ! i") (auto simp: step_def split: if_splits intro!: g)
qed

lemma run_remaining: "run sched s = Some s' \<Longrightarrow> length sched + remaining s' \<le> remaining s"
proof (induction sched arbitrary: s)
  case Nil
  then show ?case by simp
next
  case (Cons i sched)
  from Cons.prems obtain s1 where
    st: "step s i = Some s1" and rest: "run sched s1 = Some s'"
    by (auto split: option.splits)
  from Cons.IH [OF rest] step_remaining [OF st] show ?case by simp
qed

lemma remaining_first_callers: "remaining (first_callers n) = 9 * n"
  by (simp add: remaining_def first_callers_def sum_list_replicate)

lemma step_enabled:
  "i < length (threads s) \<Longrightarrow> \<not> has_returned (threads s ! i) \<Longrightarrow> threads s ! i \<noteq> AtLock
     \<Longrightarrow> step s i \<noteq> None"
  by (cases "threads s ! i") (simp_all add: step_def)

lemma holds_mutex_enabled: "holds_mutex l \<Longrightarrow> \<not> has_returned l \<and> l \<noteq> AtLock"
  by (cases l) simp_all

lemma inv_progress:
  assumes "once_inv s" and "\<not> all_returned s"
  shows "\<exists>i < length (threads s). step s i \<noteq> None"
proof -
  from assms(2) obtain i where i: "i < length (threads s)"
    and nr: "\<not> has_returned (threads s ! i)"
    by (auto simp: all_returned_def list_all_length)
  show ?thesis
  proof (cases "threads s ! i = AtLock")
    case False
    with i nr step_enabled show ?thesis by blast
  next
    case True
    show ?thesis
    proof (cases "once_m s")
      case None
      with True i have "step s i \<noteq> None" by (simp add: step_def)
      with i show ?thesis by blast
    next
      case (Some j)
      with assms(1) have j: "j < length (threads s)" and "holds_mutex (threads s ! j)"
        by (simp_all add: once_inv_def locals_ok_def)
      with step_enabled holds_mutex_enabled show ?thesis by blast
    qed
  qed
qed

lemma inv_completes:
  "once_inv s \<Longrightarrow> \<exists>sched s'. run sched s = Some s' \<and> all_returned s'"
proof (induction "remaining s" arbitrary: s rule: less_induct)
  case less
  show ?case
  proof (cases "all_returned s")
    case True
    then have "run [] s = Some s \<and> all_returned s" by simp
    then show ?thesis by blast
  next
    case False
    from inv_progress [OF less.prems False] obtain i s1 where st: "step s i = Some s1"
      by auto
    from less.hyps [OF step_remaining [OF st] inv_step [OF less.prems st]]
    obtain sched s' where "run sched s1 = Some s'" and fin: "all_returned s'"
      by blast
    with st have "run (i # sched) s = Some s'" by simp
    with fin show ?thesis by blast
  qed
qed

lemma expected_shared_once:
  "length (created_lines (stdout (expected_shared d hp))) \<le> 1
   \<and> (connID (expected_shared d hp) = 0 \<or> connID (expected_shared d hp) = 1)
   \<and> length (conns (expected_shared d hp)) \<le> 1"
  by (cases "(d, hp)" rule: expected_shared.cases)
     (simp_all add: completed_state created_lines_def,
      simp_all add: program_start_def func1_defs)

lemma inv_returned:
  assumes "once_inv s" and "i < length (threads s)" and "threads s ! i = Returned p"
  shows "p = Addr 0 \<and> p = instance_ptr (shared s) \<and> shared s = snd (GetInstance program_start)"
proof -
  from assms have "once_done (shared s)" and p: "p = Addr 0"
    by (auto simp: once_inv_def locals_ok_def)
  with assms(1) have "shared s = snd (GetInstance program_start)"
    by (simp add: once_inv_def)
  with p show ?thesis by (simp add: completed_state)
qed

lemma inv_all_returned:
  assumes "once_inv s" and "all_returned s" and "0 < length (threads s)"
  shows "shared s = snd (GetInstance program_start) \<and> once_m s = None"
proof -
  from assms(2,3) obtain p where "threads s ! 0 = Returned p"
    by (cases "threads s ! 0") (auto simp: all_returned_def list_all_length)
  with inv_returned [OF assms(1,3)] have sh: "shared s = snd (GetInstance program_start)"
    by simp
  have "once_m s = None"
  proof (cases "once_m s")
    case (Some j)
    with assms(1) have j: "j < length (threads s)" and "holds_mutex (threads s ! j)"
      by (simp_all add: once_inv_def locals_ok_def)
    with assms(2) holds_mutex_enabled show ?thesis
      by (auto simp: all_returned_def list_all_length)
  qed simp
  with sh show ?thesis by simp
qed

text \<open>
  C1. For \<open>n \<ge> 1\<close> threads that call \<open>GetInstance\<close> concurrently in the start state, in
  every state that an interleaving of their steps reaches: every thread that has returned
  has returned the same pointer, the address of the one connection, which is the value of
  \<open>instance\<close>; the initializer has run at most once (at most one "instance created" line,
  \<open>connID\<close> at most 1, at most one connection); when all threads have returned the package
  state is the state after one sequential call, so the initializer has run exactly once;
  while some thread has not returned some thread can step, and the interleaving can be
  continued to a state in which all callers have returned; and no interleaving has more
  than \<open>9 * n\<close> steps.
\<close>

theorem GetInstance_concurrent_first_callers:
  assumes "0 < n" and "run sched (first_callers n) = Some s"
  shows "length (threads s) = n
       \<and> (\<forall>i < n. \<forall>p. threads s ! i = Returned p \<longrightarrow> p = Addr 0 \<and> p = instance_ptr (shared s))
       \<and> length (created_lines (stdout (shared s))) \<le> 1
       \<and> (connID (shared s) = 0 \<or> connID (shared s) = 1)
       \<and> length (conns (shared s)) \<le> 1
       \<and> (all_returned s \<longrightarrow> shared s = snd (GetInstance program_start) \<and> once_m s = None)
       \<and> (\<not> all_returned s \<longrightarrow> (\<exists>i < n. step s i \<noteq> None))
       \<and> (\<exists>more s'. run more s = Some s' \<and> all_returned s')
       \<and> length sched \<le> 9 * n"
proof -
  from run_length [OF assms(2)] have len: "length (threads s) = n"
    by (simp add: first_callers_def)
  from inv_run [OF inv_first_callers assms(2)] have inv: "once_inv s" .
  from inv have "shared s = expected_shared (once_done (shared s)) (holder_pc s)"
    by (simp add: once_inv_def)
  with expected_shared_once [of "once_done (shared s)" "holder_pc s"]
  have once: "length (created_lines (stdout (shared s))) \<le> 1
       \<and> (connID (shared s) = 0 \<or> connID (shared s) = 1)
       \<and> length (conns (shared s)) \<le> 1"
    by simp
  from run_remaining [OF assms(2)] have bound: "length sched \<le> 9 * n"
    by (simp add: remaining_first_callers)
  from inv_returned [OF inv] len
  have ret: "\<forall>i < n. \<forall>p. threads s ! i = Returned p \<longrightarrow> p = Addr 0 \<and> p = instance_ptr (shared s)"
    by blast
  from inv_all_returned [OF inv] assms(1) len
  have fin: "all_returned s \<longrightarrow> shared s = snd (GetInstance program_start) \<and> once_m s = None"
    by simp
  from inv_progress [OF inv] len
  have prog: "\<not> all_returned s \<longrightarrow> (\<exists>i < n. step s i \<noteq> None)"
    by simp
  from inv_completes [OF inv]
  have compl: "\<exists>more s'. run more s = Some s' \<and> all_returned s'" .
  from len ret once fin prog compl bound show ?thesis by simp
qed


lemma race_run:
  "run [0, 1, 1, 1, 1, 1, 1, 1, 1, 1, 0, 0, 0, 0] (first_callers 2) =
     Some \<lparr>shared = snd (GetInstance program_start), once_m = None,
           threads = [Returned (Addr 0), Returned (Addr 0)]\<rparr>"
  unfolding completed_state
  by (simp add: first_callers_def step_def goto_def program_start_def
      func1_defs eval_nat_numeral)

text \<open>
  One caller alone takes the nine steps of the slow path and ends in the state of the
  sequential \<open>GetInstance\<close>; a caller that finds the mutex held cannot step.
\<close>

lemma single_caller:
  "run [0, 0, 0, 0, 0, 0, 0, 0, 0] (first_callers 1) =
     Some \<lparr>shared = snd (GetInstance program_start), once_m = None,
           threads = [Returned (Addr 0)]\<rparr>
   \<and> fst (GetInstance program_start) = Inr (Addr 0)"
  unfolding GetInstance_program_start
  by (simp add: first_callers_def step_def goto_def program_start_def func1_defs)

lemma waiter_blocked:
  "run [0, 1, 1] (first_callers 2) =
     Some \<lparr>shared = program_start, once_m = Some 1, threads = [AtLock, AtCheck]\<rparr>
   \<and> step \<lparr>shared = program_start, once_m = Some 1, threads = [AtLock, AtCheck]\<rparr> 0 = None"
  by (simp add: first_callers_def step_def goto_def program_start_def eval_nat_numeral)

theorem GetInstance_concurrent_first_callers_witness:
  "(0::nat) < 2
   \<and> run [0, 1, 1, 1, 1, 1, 1, 1, 1, 1, 0, 0, 0, 0] (first_callers 2) =
       Some \<lparr>shared = snd (GetInstance program_start), once_m = None,
             threads = [Returned (Addr 0), Returned (Addr 0)]\<rparr>
   \<and> all_returned \<lparr>shared = snd (GetInstance program_start), once_m = None,
             threads = [Returned (Addr 0), Returned (Addr 0)]\<rparr>
   \<and> stdout (snd (GetInstance program_start)) = [InstanceCreated 1]
   \<and> connID (snd (GetInstance program_start)) = 1
   \<and> length [0, 1, 1, 1, 1, 1, 1, 1, 1, 1, 0, 0, 0, 0 :: nat] \<le> 9 * 2"
proof -
  have a: "(0::nat) < 2" by simp
  have b: "all_returned \<lparr>shared = snd (GetInstance program_start), once_m = None,
             threads = [Returned (Addr 0), Returned (Addr 0)]\<rparr>"
    by (simp add: all_returned_def)
  have c: "stdout (snd (GetInstance program_start)) = [InstanceCreated 1]"
    and d: "connID (snd (GetInstance program_start)) = 1"
    by (simp_all add: completed_state)
  from GetInstance_concurrent_first_callers [OF a race_run]
  have e: "length [0, 1, 1, 1, 1, 1, 1, 1, 1, 1, 0, 0, 0, 0 :: nat] \<le> 9 * 2"
    by simp
  show ?thesis
    by (intro conjI) (fact a, fact race_run, fact b, fact c, fact d, fact e)
qed

end
